theory Spec2Isabelle
  imports Complex_Main "HOL-Library.Word" "HOL-Library.Signed_Division"
begin

unbundle bit_operations_syntax

section \<open>Machine types of \<^verbatim>\<open>cell_manager.h\<close>\<close>

text \<open>
  The header works on fixed-width integers. \<^verbatim>\<open>int\<close> is a 32-bit two's complement value,
  \<^verbatim>\<open>GLuint\<close> and \<^verbatim>\<open>GLbitfield\<close> are 32-bit unsigned values. Arithmetic on words wraps; for
  \<^verbatim>\<open>int\<close> this is what the hardware does (the C++ standard leaves signed overflow
  undefined), and every theorem below that depends on an \<^verbatim>\<open>int\<close> sum says in which range
  it holds. Signed comparison is \<open><s\<close>, the signed value of a word is \<open>sint\<close>.
\<close>

type_synonym uint8_t = "8 word"
type_synonym uint32_t = "32 word"
type_synonym uint64_t = "64 word"
type_synonym int32 = "32 word"
type_synonym GLuint = "32 word"
type_synonym GLbitfield = "32 word"

text \<open>
  A \<^verbatim>\<open>float\<close> is modelled by the real number it denotes. Every float literal of the header
  (0, 1, 20, 60, 150, 250) is exactly representable in binary32, and comparison of finite
  floats is comparison of the reals they denote. Rounded float arithmetic is not a
  function on reals that this theory fixes: the two float operations that
  \<^verbatim>\<open>updateEfficiency\<close> uses are taken as parameters (record \<open>fpu\<close> below).
\<close>

type_synonym float = real

datatype fault = DivisionByZero | OutOfBounds

text \<open>
  The C++ remainder \<^verbatim>\<open>a % b\<close> on \<^verbatim>\<open>int\<close> truncates towards zero: the result has the sign of
  \<^verbatim>\<open>a\<close>. A zero divisor is undefined behaviour and is a fault of the model. The header
  only ever divides by the literal 3, so the other undefined case, the smallest \<^verbatim>\<open>int\<close>
  divided by \<open>- 1\<close>, gets no branch of its own.
\<close>

definition cpp_rem :: "int32 \<Rightarrow> int32 \<Rightarrow> fault + int32" where
  "cpp_rem a b = (if b = 0 then Inl DivisionByZero else Inr (word_of_int (sint a smod sint b)))"

record fpu =
  fpu_of_int :: "int32 \<Rightarrow> float"
  fpu_div :: "float \<Rightarrow> float \<Rightarrow> float"

text \<open>
  \<^verbatim>\<open>a / b\<close> with a float \<^verbatim>\<open>a\<close> and an \<^verbatim>\<open>int\<close> \<^verbatim>\<open>b\<close>: the divisor is converted to float and
  the quotient is rounded. The conversion of a non-zero 32-bit integer is a non-zero
  float, so the division is by zero exactly when \<^verbatim>\<open>b\<close> is zero; that case is a fault.
\<close>

definition float_div_int :: "fpu \<Rightarrow> float \<Rightarrow> int32 \<Rightarrow> fault + float" where
  "float_div_int u a b =
     (if b = 0 then Inl DivisionByZero else Inr (fpu_div u a (fpu_of_int u b)))"

text \<open>An idealised unit without rounding, used to run the model on concrete inputs.\<close>

definition exact_fpu :: fpu where
  "exact_fpu = \<lparr>fpu_of_int = (\<lambda>n. real_of_int (sint n)), fpu_div = (\<lambda>a b. a / b)\<rparr>"

section \<open>\<^verbatim>\<open>struct ComputeCell\<close>\<close>

text \<open>\<^verbatim>\<open>glm::vec4\<close> is (x, y, z, w); the constructor of \<^verbatim>\<open>glm::quat\<close> takes (w, x, y, z).\<close>

datatype vec4 = Vec4 float float float float
datatype quat = Quat float float float float

record ComputeCell =
  positionAndMass :: vec4
  velocity :: vec4
  acceleration :: vec4
  orientation :: quat
  angularVelocity :: quat
  angularAcceleration :: quat
  signallingSubstances :: vec4
  modeIndex :: int32
  age :: float
  toxins :: float
  nitrates :: float
  uniqueID :: uint64_t
  justSplit :: uint64_t
  padding2 :: "uint32_t list"

definition ComputeCell_default :: ComputeCell where
  "ComputeCell_default =
     \<lparr>positionAndMass = Vec4 0 0 0 1,
      velocity = Vec4 0 0 0 0,
      acceleration = Vec4 0 0 0 0,
      orientation = Quat 1 0 0 0,
      angularVelocity = Quat 1 0 0 0,
      angularAcceleration = Quat 1 0 0 0,
      signallingSubstances = Vec4 0 0 0 0,
      modeIndex = 0,
      age = 0,
      toxins = 0,
      nitrates = 1,
      uniqueID = 0,
      justSplit = 0,
      padding2 = [0, 0, 0, 0]\<rparr>"

definition getParentID :: "ComputeCell \<Rightarrow> uint32_t" where
  "getParentID c = ucast (drop_bit 32 (uniqueID c) AND 0xFFFFFFFF)"

definition getCellID :: "ComputeCell \<Rightarrow> uint32_t" where
  "getCellID c = ucast (drop_bit 1 (uniqueID c) AND 0x7FFFFFFF)"

definition getChildFlag :: "ComputeCell \<Rightarrow> uint8_t" where
  "getChildFlag c = ucast (uniqueID c AND 0x1)"

definition setUniqueID :: "uint32_t \<Rightarrow> uint32_t \<Rightarrow> uint8_t \<Rightarrow> ComputeCell \<Rightarrow> ComputeCell" where
  "setUniqueID parentID cellID childFlag c =
     c\<lparr>uniqueID :=
          push_bit 32 (ucast parentID :: uint64_t)
            OR push_bit 1 (ucast (cellID AND 0x7FFFFFFF) :: uint64_t)
            OR ucast (childFlag AND 0x1)\<rparr>"

section \<open>\<^verbatim>\<open>CellManager::BarrierStats\<close>\<close>

record BarrierStats =
  totalBarriers :: int32
  batchedBarriers :: int32
  flushCalls :: int32
  barrierEfficiency :: float

definition BarrierStats_default :: BarrierStats where
  "BarrierStats_default =
     \<lparr>totalBarriers = 0, batchedBarriers = 0, flushCalls = 0, barrierEfficiency = 0\<rparr>"

definition reset :: "BarrierStats \<Rightarrow> BarrierStats" where
  "reset s = s\<lparr>totalBarriers := 0, batchedBarriers := 0, flushCalls := 0, barrierEfficiency := 0\<rparr>"

definition updateEfficiency :: "fpu \<Rightarrow> BarrierStats \<Rightarrow> fault + BarrierStats" where
  "updateEfficiency u s =
     (if 0 <s totalBarriers s then
        (case float_div_int u (fpu_of_int u (batchedBarriers s)) (totalBarriers s) of
           Inl e \<Rightarrow> Inl e
         | Inr q \<Rightarrow> Inr (s\<lparr>barrierEfficiency := q\<rparr>))
      else Inr s)"

section \<open>\<^verbatim>\<open>CellManager::BarrierBatch\<close>\<close>

text \<open>
  The field \<open>stats\<close> is the pointer \<^verbatim>\<open>BarrierStats* stats\<close>: \<open>None\<close> is \<^verbatim>\<open>nullptr\<close>, and
  \<open>Some s\<close> carries the state of the object pointed to, which the methods update through
  the pointer. The only effect on the graphics API is the call \<^verbatim>\<open>glMemoryBarrier\<close>; a
  method returns the calls it issued, in order.
\<close>

datatype gl_call = glMemoryBarrier GLbitfield

record BarrierBatch =
  pendingBarriers :: GLbitfield
  needsFlush :: bool
  stats :: "BarrierStats option"

definition BarrierBatch_default :: BarrierBatch where
  "BarrierBatch_default = \<lparr>pendingBarriers = 0, needsFlush = False, stats = None\<rparr>"

definition addBarrier :: "GLbitfield \<Rightarrow> BarrierBatch \<Rightarrow> BarrierBatch" where
  "addBarrier barrier b =
     (let b1 = b\<lparr>pendingBarriers := pendingBarriers b OR barrier\<rparr> in
      case stats b1 of
        None \<Rightarrow> b1
      | Some s \<Rightarrow>
          (let s1 = s\<lparr>totalBarriers := totalBarriers s + 1\<rparr>;
               s2 = (if pendingBarriers b1 \<noteq> barrier
                     then s1\<lparr>batchedBarriers := batchedBarriers s1 + 1\<rparr> else s1)
           in b1\<lparr>stats := Some s2\<rparr>))"

definition flush :: "fpu \<Rightarrow> BarrierBatch \<Rightarrow> fault + (gl_call list \<times> BarrierBatch)" where
  "flush u b =
     (if pendingBarriers b \<noteq> 0 then
        (let calls = [glMemoryBarrier (pendingBarriers b)];
             b1 = b\<lparr>pendingBarriers := 0\<rparr>
         in case stats b1 of
              None \<Rightarrow> Inr (calls, b1\<lparr>needsFlush := False\<rparr>)
            | Some s \<Rightarrow>
                (case updateEfficiency u (s\<lparr>flushCalls := flushCalls s + 1\<rparr>) of
                   Inl e \<Rightarrow> Inl e
                 | Inr s' \<Rightarrow> Inr (calls, b1\<lparr>stats := Some s', needsFlush := False\<rparr>)))
      else Inr ([], b\<lparr>needsFlush := False\<rparr>))"

definition clear :: "BarrierBatch \<Rightarrow> BarrierBatch" where
  "clear b = b\<lparr>pendingBarriers := 0, needsFlush := False\<rparr>"

definition setStats :: "BarrierStats option \<Rightarrow> BarrierBatch \<Rightarrow> BarrierBatch" where
  "setStats statsPtr b = b\<lparr>stats := statsPtr\<rparr>"

section \<open>\<^verbatim>\<open>struct CellManager\<close>\<close>

text \<open>
  The record holds the storage-buffer handles and the configuration members of the
  struct with their default member initialisers. \<^verbatim>\<open>config::MAX_CELLS\<close> and
  \<^verbatim>\<open>config::DEFAULT_SPAWN_RADIUS\<close> come from \<^verbatim>\<open>config.h\<close> and are parameters of the initial
  state. Shader pointers, gizmo objects and the selection state are left out: no
  function defined in the header reads or writes them.
\<close>

record CellManager =
  cellBuffer :: "GLuint list"
  instanceBuffer :: GLuint
  bufferRotation :: int32
  gpuCellCountBuffer :: GLuint
  stagingCellCountBuffer :: GLuint
  cellAdditionBuffer :: GLuint
  stagingCellBuffer :: GLuint
  modeBuffer :: GLuint
  idPoolBuffer :: GLuint
  idCounterBuffer :: GLuint
  idRecycleBuffer :: GLuint
  gridBuffer :: GLuint
  gridCountBuffer :: GLuint
  gridOffsetBuffer :: GLuint
  gridHashBuffer :: GLuint
  activeCellsBuffer :: GLuint
  lodDistances :: "float list"
  useLODSystem :: bool
  lodInstanceBuffers :: "GLuint list"
  lodCountBuffer :: GLuint
  visibleInstanceBuffer :: GLuint
  visibleCountBuffer :: GLuint
  useFrustumCulling :: bool
  visibleCellCount :: int32
  cellCount :: int32
  spawnRadius :: float
  cellLimit :: int32

definition CellManager_default :: "int32 \<Rightarrow> float \<Rightarrow> CellManager" where
  "CellManager_default MAX_CELLS DEFAULT_SPAWN_RADIUS =
     \<lparr>cellBuffer = [0, 0, 0],
      instanceBuffer = 0,
      bufferRotation = 0,
      gpuCellCountBuffer = 0,
      stagingCellCountBuffer = 0,
      cellAdditionBuffer = 0,
      stagingCellBuffer = 0,
      modeBuffer = 0,
      idPoolBuffer = 0,
      idCounterBuffer = 0,
      idRecycleBuffer = 0,
      gridBuffer = 0,
      gridCountBuffer = 0,
      gridOffsetBuffer = 0,
      gridHashBuffer = 0,
      activeCellsBuffer = 0,
      lodDistances = [20, 60, 150, 250],
      useLODSystem = True,
      lodInstanceBuffers = [0, 0, 0, 0],
      lodCountBuffer = 0,
      visibleInstanceBuffer = 0,
      visibleCountBuffer = 0,
      useFrustumCulling = True,
      visibleCellCount = 0,
      cellCount = 0,
      spawnRadius = DEFAULT_SPAWN_RADIUS,
      cellLimit = MAX_CELLS\<rparr>"

definition getRotatedIndex :: "CellManager \<Rightarrow> int32 \<Rightarrow> int32 \<Rightarrow> fault + int32" where
  "getRotatedIndex m index max_v = cpp_rem (index + bufferRotation m) max_v"

definition rotateBuffers :: "CellManager \<Rightarrow> fault + CellManager" where
  "rotateBuffers m =
     (case getRotatedIndex m 1 3 of
        Inl e \<Rightarrow> Inl e
      | Inr i \<Rightarrow> Inr (m\<lparr>bufferRotation := i\<rparr>))"

text \<open>
  \<^verbatim>\<open>cellBuffer[i]\<close> on the three-element array: an index outside 0..2 is undefined
  behaviour in C++ and a fault of the model.
\<close>

definition cellBuffer_at :: "CellManager \<Rightarrow> int32 \<Rightarrow> fault + GLuint" where
  "cellBuffer_at m i =
     (if 0 \<le>s i \<and> i <s 3 \<and> nat (sint i) < length (cellBuffer m)
      then Inr (cellBuffer m ! nat (sint i)) else Inl OutOfBounds)"

definition getCellReadBuffer :: "CellManager \<Rightarrow> fault + GLuint" where
  "getCellReadBuffer m =
     (case getRotatedIndex m 0 3 of Inl e \<Rightarrow> Inl e | Inr i \<Rightarrow> cellBuffer_at m i)"

definition getCellWriteBuffer :: "CellManager \<Rightarrow> fault + GLuint" where
  "getCellWriteBuffer m =
     (case getRotatedIndex m 1 3 of Inl e \<Rightarrow> Inl e | Inr i \<Rightarrow> cellBuffer_at m i)"

definition setCellLimit :: "int32 \<Rightarrow> CellManager \<Rightarrow> CellManager" where
  "setCellLimit limit m = m\<lparr>cellLimit := limit\<rparr>"

definition getCellLimit :: "CellManager \<Rightarrow> int32" where
  "getCellLimit m = cellLimit m"

text \<open>Three calls of \<^verbatim>\<open>rotateBuffers()\<close> in a row; a fault ends the sequence.\<close>

definition rotateBuffers3 :: "CellManager \<Rightarrow> fault + CellManager" where
  "rotateBuffers3 m =
     (case rotateBuffers m of
        Inl e \<Rightarrow> Inl e
      | Inr m1 \<Rightarrow>
          (case rotateBuffers m1 of
             Inl e \<Rightarrow> Inl e
           | Inr m2 \<Rightarrow> rotateBuffers m2))"

text \<open>
  The states of the rotation counter that the code produces: the counter is 0, 1 or 2,
  and \<^verbatim>\<open>cellBuffer\<close> has its three elements (the array type \<^verbatim>\<open>GLuint[3]\<close>). The member
  starts at 0 and \<^verbatim>\<open>rotateBuffers()\<close> is its only writer.
\<close>

definition rotation_inv :: "CellManager \<Rightarrow> bool" where
  "rotation_inv m \<longleftrightarrow>
     0 \<le>s bufferRotation m \<and> bufferRotation m <s 3 \<and> length (cellBuffer m) = 3"

text \<open>
  A sequence of calls of the two state-changing functions that the header defines on
  \<^verbatim>\<open>CellManager\<close>, applied from left to right.
\<close>

datatype call = RotateBuffers | SetCellLimit int32

fun apply_calls :: "call list \<Rightarrow> CellManager \<Rightarrow> fault + CellManager" where
  "apply_calls [] m = Inr m"
| "apply_calls (RotateBuffers # cs) m =
     (case rotateBuffers m of Inl e \<Rightarrow> Inl e | Inr m' \<Rightarrow> apply_calls cs m')"
| "apply_calls (SetCellLimit limit # cs) m = apply_calls cs (setCellLimit limit m)"

section \<open>Bit-level facts about the packed id\<close>

lemma bit_times_2_word:
  "bit (a * 2 :: 'a::len word) n \<longleftrightarrow> n \<noteq> 0 \<and> n < LENGTH('a) \<and> bit a (n - 1)"
  unfolding mult.commute [of a 2] bit_double_iff possible_bit_word by blast

lemma mask31_numeral: "(0x7FFFFFFF :: 'a::len word) = mask 31"
  by (simp add: mask_eq_exp_minus_1)

lemma mask32_numeral: "(0xFFFFFFFF :: 'a::len word) = mask 32"
  by (simp add: mask_eq_exp_minus_1)

lemma bit_uniqueID_setUniqueID:
  "bit (uniqueID (setUniqueID p k f c)) n \<longleftrightarrow>
     (n = 0 \<and> bit f 0) \<or> (1 \<le> n \<and> n < 32 \<and> bit k (n - 1))
       \<or> (32 \<le> n \<and> n < 64 \<and> bit p (n - 32))"
proof -
  have mid: "bit (push_bit 1 (ucast (k AND mask 31) :: uint64_t)) n
               \<longleftrightarrow> 1 \<le> n \<and> n < 32 \<and> bit k (n - 1)"
  proof -
    have "push_bit 1 (ucast (k AND mask 31) :: uint64_t) = ucast (k AND mask 31) * 2"
      by simp
    then show ?thesis
      by (auto simp add: bit_times_2_word bit_ucast_iff bit_and_iff bit_mask_iff)
  qed
  have hi: "bit (push_bit 32 (ucast p :: uint64_t)) n \<longleftrightarrow> 32 \<le> n \<and> n < 64 \<and> bit p (n - 32)"
    by (auto simp add: bit_push_bit_iff bit_ucast_iff dest: bit_imp_le_length)
  have lo: "bit (ucast (f AND 1) :: uint64_t) n \<longleftrightarrow> n = 0 \<and> bit f 0"
    by (auto simp add: bit_ucast_iff bit_and_iff bit_1_iff)
  have packed: "uniqueID (setUniqueID p k f c) =
          push_bit 32 (ucast p :: uint64_t)
            OR push_bit 1 (ucast (k AND mask 31) :: uint64_t)
            OR ucast (f AND 1)"
    unfolding setUniqueID_def mask31_numeral by simp
  show ?thesis
    unfolding packed bit_or_iff mid hi lo by blast
qed

lemma getParentID_setUniqueID: "getParentID (setUniqueID p k f c) = p"
  by (rule bit_word_eqI)
     (simp add: getParentID_def mask32_numeral bit_ucast_iff bit_and_iff bit_mask_iff
        bit_drop_bit_eq bit_uniqueID_setUniqueID)

lemma getCellID_setUniqueID: "getCellID (setUniqueID p k f c) = k AND 0x7FFFFFFF"
  by (rule bit_word_eqI)
     (auto simp add: getCellID_def mask31_numeral bit_ucast_iff bit_and_iff bit_mask_iff
        bit_drop_bit_eq bit_uniqueID_setUniqueID)

lemma getChildFlag_setUniqueID: "getChildFlag (setUniqueID p k f c) = f AND 1"
  by (rule bit_word_eqI)
     (auto simp add: getChildFlag_def bit_ucast_iff bit_and_iff bit_1_iff
        bit_uniqueID_setUniqueID)

section \<open>Signed arithmetic of the rotation counter\<close>

lemma cpp_rem_3: "cpp_rem a 3 = Inr (word_of_int (sint a smod 3))"
  by (simp add: cpp_rem_def)

lemma smod_3_bounds: "- 3 < (k :: int) smod 3 \<and> k smod 3 < 3"
  by (auto simp add: signed_modulo_int_def sgn_if abs_if intro: order.strict_trans1)

lemma sint_small: "- 3 < j \<Longrightarrow> j < 3 \<Longrightarrow> sint (word_of_int j :: int32) = j"
  by (simp add: sint_sbintrunc' signed_take_bit_int_eq_self)

lemma smod_3_idem: "((k :: int) smod 3) smod 3 = k smod 3"
  by (auto simp add: signed_modulo_int_def sgn_if abs_if)

lemma smod_3_nonneg: "0 \<le> k \<Longrightarrow> (k :: int) smod 3 = k mod 3"
  by (auto simp add: signed_modulo_int_def sgn_if)

lemma sint_succ:
  assumes "0 \<le>s (r :: int32)" and "r <s 0x7FFFFFFF"
  shows "sint (1 + r) = sint r + 1"
proof -
  have "0 \<le> sint r" and "sint r < 2147483647"
    using assms by (simp_all add: word_sle_eq word_sless_alt)
  then show ?thesis
    by (simp add: sint_word_add signed_take_bit_int_eq_self)
qed

lemma getRotatedIndex_0: "getRotatedIndex m 0 3 = Inr (word_of_int (sint (bufferRotation m) smod 3))"
  by (simp add: getRotatedIndex_def cpp_rem_3)

lemma getRotatedIndex_1: "getRotatedIndex m 1 3 = Inr (word_of_int (sint (1 + bufferRotation m) smod 3))"
  by (simp add: getRotatedIndex_def cpp_rem_3)

lemma rotateBuffers_eq:
  "rotateBuffers m = Inr (m\<lparr>bufferRotation := word_of_int (sint (1 + bufferRotation m) smod 3)\<rparr>)"
  by (simp add: rotateBuffers_def getRotatedIndex_1)

lemma read_after_rotate:
  "rotateBuffers m = Inr m' \<Longrightarrow> getRotatedIndex m' 0 3 = getRotatedIndex m 1 3"
  using smod_3_bounds [of "sint (1 + bufferRotation m)"]
  by (auto simp add: rotateBuffers_eq getRotatedIndex_0 getRotatedIndex_1 sint_small smod_3_idem)

lemma rotateBuffers_in_range:
  assumes "0 \<le>s bufferRotation m" and "bufferRotation m <s 0x7FFFFFFF"
  shows "rotateBuffers m =
           Inr (m\<lparr>bufferRotation := word_of_int ((sint (bufferRotation m) + 1) mod 3)\<rparr>)"
proof -
  have "0 \<le> sint (bufferRotation m)"
    using assms(1) by (simp add: word_sle_eq)
  then show ?thesis
    by (simp add: rotateBuffers_eq sint_succ [OF assms] smod_3_nonneg)
qed

lemma small_in_range:
  assumes "0 \<le> j" and "j < 3"
  shows "0 \<le>s (word_of_int j :: int32) \<and> (word_of_int j :: int32) <s 0x7FFFFFFF
         \<and> sint (word_of_int j :: int32) = j"
  using assms by (simp add: word_sle_eq word_sless_alt sint_small)

lemma rotateBuffers3_in_range:
  assumes "0 \<le>s bufferRotation m" and "bufferRotation m <s 0x7FFFFFFF"
  shows "rotateBuffers3 m =
           Inr (m\<lparr>bufferRotation := word_of_int (sint (bufferRotation m) mod 3)\<rparr>)"
proof -
  define k where "k = sint (bufferRotation m)"
  define m1 where "m1 = m\<lparr>bufferRotation := word_of_int ((k + 1) mod 3)\<rparr>"
  define m2 where "m2 = m\<lparr>bufferRotation := word_of_int (((k + 1) mod 3 + 1) mod 3)\<rparr>"
  have r1: "rotateBuffers m = Inr m1"
    unfolding m1_def k_def by (rule rotateBuffers_in_range [OF assms])
  have s1: "0 \<le>s bufferRotation m1 \<and> bufferRotation m1 <s 0x7FFFFFFF
            \<and> sint (bufferRotation m1) = (k + 1) mod 3"
    unfolding m1_def using small_in_range [of "(k + 1) mod 3"] by simp
  have r2: "rotateBuffers m1 = Inr m2"
    using rotateBuffers_in_range [of m1] s1 by (simp add: m1_def m2_def)
  have s2: "0 \<le>s bufferRotation m2 \<and> bufferRotation m2 <s 0x7FFFFFFF
            \<and> sint (bufferRotation m2) = ((k + 1) mod 3 + 1) mod 3"
    unfolding m2_def using small_in_range [of "((k + 1) mod 3 + 1) mod 3"] by simp
  have a: "(((k + 1) mod 3 + 1) mod 3 + 1) mod 3 = k mod 3"
    by presburger
  have r3: "rotateBuffers m2 = Inr (m\<lparr>bufferRotation := word_of_int (k mod 3)\<rparr>)"
    using rotateBuffers_in_range [of m2] s2 by (simp add: m2_def a)
  show ?thesis
    by (simp add: rotateBuffers3_def r1 r2 r3 k_def)
qed

lemma word_of_sint_small:
  assumes "0 \<le>s (r :: int32)" and "r <s 3"
  shows "word_of_int (sint r mod 3) = r"
proof -
  have "0 \<le> sint r" and "sint r < 3"
    using assms by (simp_all add: word_sle_eq word_sless_alt)
  then have "sint r mod 3 = sint r" by simp
  then show ?thesis by simp
qed

section \<open>The rotation counter stays in 0..2\<close>

lemma rotation_inv_range:
  "rotation_inv m \<Longrightarrow> 0 \<le>s bufferRotation m \<and> bufferRotation m <s 0x7FFFFFFF"
  by (simp add: rotation_inv_def word_sle_eq word_sless_alt)

lemma rotation_inv_default: "rotation_inv (CellManager_default MAX_CELLS DEFAULT_SPAWN_RADIUS)"
  by (simp add: rotation_inv_def CellManager_default_def word_sless_alt)

lemma rotation_inv_rotateBuffers:
  assumes "rotation_inv m"
  shows "\<exists>m'. rotateBuffers m = Inr m' \<and> rotation_inv m'"
proof -
  have rng: "0 \<le>s bufferRotation m" "bufferRotation m <s 0x7FFFFFFF"
    using rotation_inv_range [OF assms] by simp_all
  have "rotation_inv (m\<lparr>bufferRotation := word_of_int ((sint (bufferRotation m) + 1) mod 3)\<rparr>)"
    using assms small_in_range [of "(sint (bufferRotation m) + 1) mod 3"]
    by (simp add: rotation_inv_def word_sless_alt)
  then show ?thesis
    by (simp add: rotateBuffers_in_range [OF rng])
qed

lemma rotation_inv_setCellLimit: "rotation_inv m \<Longrightarrow> rotation_inv (setCellLimit limit m)"
  by (simp add: rotation_inv_def setCellLimit_def)

lemma rotation_inv_apply_calls:
  "rotation_inv m \<Longrightarrow> \<exists>m'. apply_calls cs m = Inr m' \<and> rotation_inv m'"
proof (induction cs arbitrary: m)
  case Nil
  then show ?case by simp
next
  case (Cons c cs)
  show ?case
  proof (cases c)
    case RotateBuffers
    obtain m1 where "rotateBuffers m = Inr m1" and "rotation_inv m1"
      using rotation_inv_rotateBuffers [OF Cons.prems] by blast
    then show ?thesis
      using Cons.IH [of m1] RotateBuffers by simp
  next
    case (SetCellLimit limit)
    then show ?thesis
      using Cons.IH [OF rotation_inv_setCellLimit [OF Cons.prems, of limit]] by simp
  qed
qed

lemma reachable_rotation_inv:
  "\<exists>m. apply_calls cs (CellManager_default MAX_CELLS DEFAULT_SPAWN_RADIUS) = Inr m \<and> rotation_inv m"
  by (rule rotation_inv_apply_calls [OF rotation_inv_default])

lemma rotateBuffers3_inv: "rotation_inv m \<Longrightarrow> rotateBuffers3 m = Inr m"
proof -
  assume inv: "rotation_inv m"
  have rng: "0 \<le>s bufferRotation m" "bufferRotation m <s 0x7FFFFFFF"
    using rotation_inv_range [OF inv] by simp_all
  have "word_of_int (sint (bufferRotation m) mod 3) = bufferRotation m"
    using inv word_of_sint_small [of "bufferRotation m"] by (simp add: rotation_inv_def)
  then show ?thesis
    by (simp add: rotateBuffers3_in_range [OF rng])
qed

lemma getRotatedIndex_0_inv: "rotation_inv m \<Longrightarrow> getRotatedIndex m 0 3 = Inr (bufferRotation m)"
proof -
  assume inv: "rotation_inv m"
  have k: "0 \<le> sint (bufferRotation m)" "sint (bufferRotation m) < 3"
    using inv by (simp_all add: rotation_inv_def word_sle_eq word_sless_alt)
  then have "sint (bufferRotation m) smod 3 = sint (bufferRotation m)"
    by (simp add: smod_3_nonneg)
  then show ?thesis
    by (simp add: getRotatedIndex_0)
qed

lemma getRotatedIndex_1_inv:
  "rotation_inv m \<Longrightarrow>
     getRotatedIndex m 1 3 = Inr (word_of_int ((sint (bufferRotation m) + 1) mod 3))"
proof -
  assume inv: "rotation_inv m"
  have rng: "0 \<le>s bufferRotation m" "bufferRotation m <s 0x7FFFFFFF"
    using rotation_inv_range [OF inv] by simp_all
  have "0 \<le> sint (bufferRotation m)"
    using rng(1) by (simp add: word_sle_eq)
  then show ?thesis
    by (simp add: getRotatedIndex_1 sint_succ [OF rng] smod_3_nonneg)
qed

section \<open>Facts about the barrier statistics\<close>

lemma sless_zero_neq: "0 <s (t :: int32) \<Longrightarrow> t \<noteq> 0"
  by (auto simp add: word_sless_alt)

lemma updateEfficiency_eq:
  "updateEfficiency u s =
     Inr (if 0 <s totalBarriers s
          then s\<lparr>barrierEfficiency :=
                  fpu_div u (fpu_of_int u (batchedBarriers s)) (fpu_of_int u (totalBarriers s))\<rparr>
          else s)"
  by (simp add: updateEfficiency_def float_div_int_def sless_zero_neq)

lemma or_absorbed_iff: "(p OR k = k) \<longleftrightarrow> (p AND NOT k = 0)" for p k :: "'a::len word"
  by (auto simp add: bit_eq_iff bit_or_iff bit_and_iff bit_not_iff)

section \<open>The unique id round trip\<close>

text \<open>
  Claim C1. For every 32-bit \<^verbatim>\<open>parentID\<close>, every \<^verbatim>\<open>cellID\<close> strictly below \<open>2 ^ 31\<close> and
  every \<^verbatim>\<open>childFlag\<close> equal to 0 or 1, the three decoders return the original fields after
  \<^verbatim>\<open>setUniqueID(parentID, cellID, childFlag)\<close>. The packed value uses bit 0 for the child
  flag, bits 1 to 31 for the cell id and bits 32 to 63 for the parent id, and no other
  bit.
\<close>

theorem setUniqueID_roundtrip:
  assumes "cellID < 2 ^ 31" and "childFlag = 0 \<or> childFlag = 1"
  shows "getParentID (setUniqueID parentID cellID childFlag c) = parentID
       \<and> getCellID (setUniqueID parentID cellID childFlag c) = cellID
       \<and> getChildFlag (setUniqueID parentID cellID childFlag c) = childFlag
       \<and> (\<forall>n. bit (uniqueID (setUniqueID parentID cellID childFlag c)) n \<longleftrightarrow>
              (n = 0 \<and> bit childFlag 0)
            \<or> (1 \<le> n \<and> n < 32 \<and> bit cellID (n - 1))
            \<or> (32 \<le> n \<and> n < 64 \<and> bit parentID (n - 32)))"
proof -
  have k: "cellID AND 0x7FFFFFFF = cellID"
    using assms(1) unfolding mask31_numeral by (simp add: less_mask_eq)
  have f: "childFlag AND 1 = childFlag"
    using assms(2) by auto
  show ?thesis
    by (simp only: getParentID_setUniqueID getCellID_setUniqueID getChildFlag_setUniqueID
          bit_uniqueID_setUniqueID k f simp_thms)
qed

theorem setUniqueID_roundtrip_witness:
  "(5 :: uint32_t) < 2 ^ 31
   \<and> getParentID (setUniqueID 7 5 1 ComputeCell_default) = 7
   \<and> getCellID (setUniqueID 7 5 1 ComputeCell_default) = 5
   \<and> getChildFlag (setUniqueID 7 5 1 ComputeCell_default) = 1
   \<and> uniqueID (setUniqueID 7 5 1 ComputeCell_default) = 0x70000000B"
proof -
  have h1: "(5 :: uint32_t) < 2 ^ 31" by simp
  have h2: "(1 :: uint8_t) = 0 \<or> (1 :: uint8_t) = 1" by simp
  have u: "uniqueID (setUniqueID 7 5 1 ComputeCell_default) = 0x70000000B"
    by (simp add: setUniqueID_def)
  show ?thesis
    using setUniqueID_roundtrip [OF h1 h2, of 7 ComputeCell_default] h1 u by simp
qed

section \<open>Barrier batching\<close>

text \<open>
  Claim C2, as the code has it. \<^verbatim>\<open>addBarrier(kind)\<close> ORs the kind into the pending mask and
  leaves \<^verbatim>\<open>needsFlush\<close> alone. With a statistics object attached, \<^verbatim>\<open>totalBarriers\<close> is
  incremented, and \<^verbatim>\<open>batchedBarriers\<close> is incremented exactly when the mask after the OR
  differs from the kind, that is exactly when the mask before the call held a bit
  outside the kind. Without a statistics object nothing is counted.
\<close>

theorem addBarrier_accounting:
  "pendingBarriers (addBarrier k b) = pendingBarriers b OR k
   \<and> needsFlush (addBarrier k b) = needsFlush b
   \<and> (stats b = None \<longrightarrow> stats (addBarrier k b) = None)
   \<and> (\<forall>s. stats b = Some s \<longrightarrow>
         stats (addBarrier k b) =
           Some (s\<lparr>totalBarriers := totalBarriers s + 1,
                   batchedBarriers :=
                     (if pendingBarriers b OR k \<noteq> k
                      then batchedBarriers s + 1 else batchedBarriers s)\<rparr>))
   \<and> (pendingBarriers b OR k \<noteq> k \<longleftrightarrow> pendingBarriers b AND NOT k \<noteq> 0)"
  by (auto simp add: addBarrier_def Let_def or_absorbed_iff split: option.splits)

theorem addBarrier_accounting_witness:
  "addBarrier 2 \<lparr>pendingBarriers = 1, needsFlush = False, stats = Some BarrierStats_default\<rparr>
     = \<lparr>pendingBarriers = 3, needsFlush = False,
        stats = Some \<lparr>totalBarriers = 1, batchedBarriers = 1, flushCalls = 0,
                       barrierEfficiency = 0\<rparr>\<rparr>
   \<and> addBarrier 2 BarrierBatch_default
     = \<lparr>pendingBarriers = 2, needsFlush = False, stats = None\<rparr>"
  using addBarrier_accounting
          [of 2 "\<lparr>pendingBarriers = 1, needsFlush = False, stats = Some BarrierStats_default\<rparr>"]
        addBarrier_accounting [of 2 BarrierBatch_default]
  by (simp add: addBarrier_def BarrierStats_default_def BarrierBatch_default_def)

text \<open>
  The pending mask is non-empty and equal to the requested kind, a statistics object is
  attached, and \<^verbatim>\<open>batchedBarriers\<close> keeps its value: the request is not counted as batched.
\<close>

theorem addBarrier_same_kind_counterexample:
  "pendingBarriers \<lparr>pendingBarriers = 1, needsFlush = False, stats = Some BarrierStats_default\<rparr> \<noteq> 0
   \<and> map_option batchedBarriers
        (stats (addBarrier 1 \<lparr>pendingBarriers = 1, needsFlush = False, stats = Some BarrierStats_default\<rparr>))
       = Some (batchedBarriers BarrierStats_default)
   \<and> batchedBarriers BarrierStats_default + 1 \<noteq> batchedBarriers BarrierStats_default"
  by (simp add: addBarrier_def BarrierStats_default_def)

text \<open>
  Claim C5. \<^verbatim>\<open>flush()\<close> never faults. With a non-empty pending mask it issues exactly one
  \<^verbatim>\<open>glMemoryBarrier\<close> call, whose argument is the whole pending mask, and counts one flush
  in the attached statistics; with an empty pending mask it issues no call and leaves the
  statistics, \<^verbatim>\<open>flushCalls\<close> included, as they were. In both cases the pending mask is empty
  and \<^verbatim>\<open>needsFlush\<close> is false afterwards.
\<close>

theorem flush_behaviour:
  "\<exists>calls b'. flush u b = Inr (calls, b')
      \<and> pendingBarriers b' = 0
      \<and> \<not> needsFlush b'
      \<and> (pendingBarriers b \<noteq> 0 \<longrightarrow>
            calls = [glMemoryBarrier (pendingBarriers b)]
            \<and> map_option flushCalls (stats b') = map_option (\<lambda>s. flushCalls s + 1) (stats b))
      \<and> (pendingBarriers b = 0 \<longrightarrow> calls = [] \<and> stats b' = stats b)"
  by (cases "stats b") (auto simp add: flush_def Let_def updateEfficiency_eq)

theorem flush_behaviour_witness:
  "flush exact_fpu
     \<lparr>pendingBarriers = 3, needsFlush = True,
        stats = Some \<lparr>totalBarriers = 4, batchedBarriers = 1, flushCalls = 0,
                       barrierEfficiency = 0\<rparr>\<rparr>
     = Inr ([glMemoryBarrier 3],
            \<lparr>pendingBarriers = 0, needsFlush = False,
               stats = Some \<lparr>totalBarriers = 4, batchedBarriers = 1, flushCalls = 1,
                              barrierEfficiency = 1 / 4\<rparr>\<rparr>)
   \<and> flush exact_fpu
     \<lparr>pendingBarriers = 0, needsFlush = True,
        stats = Some \<lparr>totalBarriers = 4, batchedBarriers = 1, flushCalls = 0,
                       barrierEfficiency = 0\<rparr>\<rparr>
     = Inr ([],
            \<lparr>pendingBarriers = 0, needsFlush = False,
               stats = Some \<lparr>totalBarriers = 4, batchedBarriers = 1, flushCalls = 0,
                              barrierEfficiency = 0\<rparr>\<rparr>)"
proof -
  have pos: "0 <s (4 :: int32)" by (simp add: word_sless_alt)
  show ?thesis
    using flush_behaviour
            [of exact_fpu
                "\<lparr>pendingBarriers = 3, needsFlush = True,
                   stats = Some \<lparr>totalBarriers = 4, batchedBarriers = 1, flushCalls = 0,
                                  barrierEfficiency = 0\<rparr>\<rparr>"]
          flush_behaviour
            [of exact_fpu
                "\<lparr>pendingBarriers = 0, needsFlush = True,
                   stats = Some \<lparr>totalBarriers = 4, batchedBarriers = 1, flushCalls = 0,
                                  barrierEfficiency = 0\<rparr>\<rparr>"]
          pos
    by (simp add: flush_def updateEfficiency_eq exact_fpu_def)
qed

text \<open>
  Claim C10. \<^verbatim>\<open>updateEfficiency()\<close> never divides by zero: it always returns a
  statistics object and never the fault. The three counters keep their values. With
  \<^verbatim>\<open>totalBarriers\<close> zero (or negative) nothing changes; with \<^verbatim>\<open>totalBarriers\<close> positive
  \<^verbatim>\<open>barrierEfficiency\<close> becomes the float quotient of \<^verbatim>\<open>batchedBarriers\<close> and
  \<^verbatim>\<open>totalBarriers\<close>.
\<close>

theorem updateEfficiency_guarded:
  "\<exists>s'. updateEfficiency u s = Inr s'
      \<and> totalBarriers s' = totalBarriers s
      \<and> batchedBarriers s' = batchedBarriers s
      \<and> flushCalls s' = flushCalls s
      \<and> (totalBarriers s = 0 \<longrightarrow> s' = s)
      \<and> (\<not> 0 <s totalBarriers s \<longrightarrow> s' = s)
      \<and> (0 <s totalBarriers s \<longrightarrow>
            barrierEfficiency s' =
              fpu_div u (fpu_of_int u (batchedBarriers s)) (fpu_of_int u (totalBarriers s)))"
  by (simp add: updateEfficiency_eq)

theorem updateEfficiency_guarded_witness:
  "updateEfficiency exact_fpu
      \<lparr>totalBarriers = 4, batchedBarriers = 1, flushCalls = 2, barrierEfficiency = 0\<rparr>
     = Inr \<lparr>totalBarriers = 4, batchedBarriers = 1, flushCalls = 2, barrierEfficiency = 1 / 4\<rparr>
   \<and> updateEfficiency exact_fpu
      \<lparr>totalBarriers = 0, batchedBarriers = 0, flushCalls = 2, barrierEfficiency = 7\<rparr>
     = Inr \<lparr>totalBarriers = 0, batchedBarriers = 0, flushCalls = 2, barrierEfficiency = 7\<rparr>"
proof -
  have pos: "0 <s (4 :: int32)" by (simp add: word_sless_alt)
  have zero: "\<not> 0 <s (0 :: int32)" by (simp add: word_sless_alt)
  show ?thesis
    using updateEfficiency_guarded
            [of exact_fpu "\<lparr>totalBarriers = 4, batchedBarriers = 1, flushCalls = 2, barrierEfficiency = 0\<rparr>"]
          updateEfficiency_guarded
            [of exact_fpu "\<lparr>totalBarriers = 0, batchedBarriers = 0, flushCalls = 2, barrierEfficiency = 7\<rparr>"]
          pos zero
    by (auto simp add: exact_fpu_def)
qed

section \<open>Buffer rotation\<close>

text \<open>
  Claim C3. The rotation counter of a manager is 0, 1 or 2: the initial state has the
  counter 0, and every sequence of \<^verbatim>\<open>rotateBuffers()\<close> and \<^verbatim>\<open>setCellLimit()\<close> calls keeps
  it in that range (lemmas \<open>rotation_inv_default\<close>, \<open>rotation_inv_apply_calls\<close>). For
  every such counter value \<^verbatim>\<open>rotateBuffers()\<close> changes only the counter and sets it to the
  old value plus one modulo 3, and three calls in a row give back the state they started
  from, hence the indices that \<^verbatim>\<open>getCellReadBuffer()\<close> and \<^verbatim>\<open>getCellWriteBuffer()\<close> select
  and the buffers they return.
\<close>

theorem rotateBuffers_three_times:
  assumes "rotation_inv m"
  shows "\<exists>m1 m3.
           rotateBuffers m = Inr m1
         \<and> m1 = m\<lparr>bufferRotation := bufferRotation m1\<rparr>
         \<and> sint (bufferRotation m1) = (sint (bufferRotation m) + 1) mod 3
         \<and> rotation_inv m1
         \<and> rotateBuffers3 m = Inr m3
         \<and> m3 = m
         \<and> getRotatedIndex m3 0 3 = getRotatedIndex m 0 3
         \<and> getRotatedIndex m3 1 3 = getRotatedIndex m 1 3
         \<and> getCellReadBuffer m3 = getCellReadBuffer m
         \<and> getCellWriteBuffer m3 = getCellWriteBuffer m"
proof -
  have rng: "0 \<le>s bufferRotation m" "bufferRotation m <s 0x7FFFFFFF"
    using rotation_inv_range [OF assms] by simp_all
  define j where "j = (sint (bufferRotation m) + 1) mod 3"
  define m1 where "m1 = m\<lparr>bufferRotation := word_of_int j\<rparr>"
  have r1: "rotateBuffers m = Inr m1"
    unfolding m1_def j_def by (rule rotateBuffers_in_range [OF rng])
  have s1: "sint (bufferRotation m1) = j"
    unfolding m1_def using small_in_range [of j] by (simp add: j_def)
  have u1: "m1 = m\<lparr>bufferRotation := bufferRotation m1\<rparr>"
    by (simp add: m1_def)
  have i1: "rotation_inv m1"
    using rotation_inv_rotateBuffers [OF assms] r1 by simp
  show ?thesis
    using r1 u1 s1 i1 rotateBuffers3_inv [OF assms] by (simp add: j_def)
qed

theorem rotateBuffers_three_times_witness:
  "rotation_inv (CellManager_default 100 5)
   \<and> rotateBuffers (CellManager_default 100 5)
        = Inr (CellManager_default 100 5\<lparr>bufferRotation := 1\<rparr>)
   \<and> rotateBuffers3 (CellManager_default 100 5) = Inr (CellManager_default 100 5)"
proof -
  have h: "rotation_inv (CellManager_default 100 5)"
    by (simp add: rotation_inv_def CellManager_default_def word_sless_alt)
  have r1: "rotateBuffers (CellManager_default 100 5)
             = Inr (CellManager_default 100 5\<lparr>bufferRotation := 1\<rparr>)"
    by (simp add: rotateBuffers_eq CellManager_default_def signed_modulo_int_def)
  show ?thesis
    using rotateBuffers_three_times [OF h] h r1 by auto
qed

text \<open>
  Claim C9. For every value of the rotation counter (0, 1 or 2, see above)
  \<^verbatim>\<open>getCellReadBuffer()\<close> and \<^verbatim>\<open>getCellWriteBuffer()\<close> return the elements of \<^verbatim>\<open>cellBuffer\<close>
  at two different indices in 0..2: the read target is never the write target. The read
  index is the counter itself. After one \<^verbatim>\<open>rotateBuffers()\<close> the read index is the write
  index from before the call, and \<^verbatim>\<open>getCellReadBuffer()\<close> returns the element that
  \<^verbatim>\<open>getCellWriteBuffer()\<close> returned before.
\<close>

theorem read_write_slots:
  assumes "rotation_inv m"
  shows "\<exists>i j m'.
           getRotatedIndex m 0 3 = Inr i
         \<and> getRotatedIndex m 1 3 = Inr j
         \<and> i = bufferRotation m
         \<and> 0 \<le>s i \<and> i <s 3 \<and> 0 \<le>s j \<and> j <s 3
         \<and> i \<noteq> j
         \<and> nat (sint i) \<noteq> nat (sint j)
         \<and> nat (sint i) < length (cellBuffer m)
         \<and> nat (sint j) < length (cellBuffer m)
         \<and> getCellReadBuffer m = Inr (cellBuffer m ! nat (sint i))
         \<and> getCellWriteBuffer m = Inr (cellBuffer m ! nat (sint j))
         \<and> rotateBuffers m = Inr m'
         \<and> getRotatedIndex m' 0 3 = Inr j
         \<and> getCellReadBuffer m' = Inr (cellBuffer m ! nat (sint j))"
proof -
  define k where "k = sint (bufferRotation m)"
  define i :: int32 where "i = bufferRotation m"
  define j :: int32 where "j = word_of_int ((k + 1) mod 3)"
  define m' where "m' = m\<lparr>bufferRotation := j\<rparr>"
  have rng: "0 \<le>s bufferRotation m" "bufferRotation m <s 0x7FFFFFFF"
    using rotation_inv_range [OF assms] by simp_all
  have len: "length (cellBuffer m) = 3"
    using assms by (simp add: rotation_inv_def)
  have si: "0 \<le>s i" "i <s 3"
    using assms by (simp_all add: rotation_inv_def i_def)
  have ki: "0 \<le> k" "k < 3" "sint i = k"
    using si by (simp_all add: k_def i_def word_sle_eq word_sless_alt)
  have sj: "0 \<le>s j \<and> j <s 0x7FFFFFFF \<and> sint j = (k + 1) mod 3"
    unfolding j_def using small_in_range [of "(k + 1) mod 3"] by simp
  have bj: "j <s 3"
    using sj by (simp add: word_sless_alt)
  have gi: "getRotatedIndex m 0 3 = Inr i"
    unfolding i_def by (rule getRotatedIndex_0_inv [OF assms])
  have gj: "getRotatedIndex m 1 3 = Inr j"
    unfolding j_def k_def by (rule getRotatedIndex_1_inv [OF assms])
  have nk: "(k + 1) mod 3 \<noteq> k"
    using ki by presburger
  have ne: "i \<noteq> j"
    using ki sj nk by auto
  have nne: "nat (sint i) \<noteq> nat (sint j)"
    using ki sj nk by simp
  have li: "nat (sint i) < length (cellBuffer m)" and lj: "nat (sint j) < length (cellBuffer m)"
    using ki sj len by simp_all
  have rd: "getCellReadBuffer m = Inr (cellBuffer m ! nat (sint i))"
    using si li by (simp add: getCellReadBuffer_def gi cellBuffer_at_def)
  have wr: "getCellWriteBuffer m = Inr (cellBuffer m ! nat (sint j))"
    using sj bj lj by (simp add: getCellWriteBuffer_def gj cellBuffer_at_def)
  have r: "rotateBuffers m = Inr m'"
    unfolding m'_def j_def k_def by (rule rotateBuffers_in_range [OF rng])
  have g': "getRotatedIndex m' 0 3 = Inr j"
    using read_after_rotate [OF r] gj by simp
  have at': "cellBuffer_at m' j = Inr (cellBuffer m ! nat (sint j))"
    using sj bj lj by (simp add: cellBuffer_at_def m'_def)
  have rd': "getCellReadBuffer m' = Inr (cellBuffer m ! nat (sint j))"
    by (simp add: getCellReadBuffer_def g' at')
  show ?thesis
    using gi gj si sj bj ne nne li lj rd wr r g' rd' by (simp add: i_def)
qed

theorem read_write_slots_witness:
  "rotation_inv (CellManager_default 100 5\<lparr>cellBuffer := [11, 12, 13]\<rparr>)
   \<and> getCellReadBuffer (CellManager_default 100 5\<lparr>cellBuffer := [11, 12, 13]\<rparr>) = Inr 11
   \<and> getCellWriteBuffer (CellManager_default 100 5\<lparr>cellBuffer := [11, 12, 13]\<rparr>) = Inr 12
   \<and> getCellReadBuffer
        (CellManager_default 100 5\<lparr>cellBuffer := [11, 12, 13], bufferRotation := 1\<rparr>) = Inr 12"
proof -
  have h: "rotation_inv (CellManager_default 100 5\<lparr>cellBuffer := [11, 12, 13]\<rparr>)"
    by (simp add: rotation_inv_def CellManager_default_def word_sless_alt)
  show ?thesis
    using read_write_slots [OF h] h
    by (simp add: getCellReadBuffer_def getCellWriteBuffer_def getRotatedIndex_def cpp_rem_def
          cellBuffer_at_def CellManager_default_def signed_modulo_int_def
          word_sle_eq word_sless_alt)
qed

section \<open>Configuration\<close>

text \<open>
  Claim C8. The default LOD distance thresholds are the four values 20, 60, 150 and 250,
  and the list is strictly ascending.
\<close>

theorem lodDistances_default:
  "lodDistances (CellManager_default MAX_CELLS DEFAULT_SPAWN_RADIUS) = [20, 60, 150, 250]
   \<and> length (lodDistances (CellManager_default MAX_CELLS DEFAULT_SPAWN_RADIUS)) = 4
   \<and> sorted_wrt (<) (lodDistances (CellManager_default MAX_CELLS DEFAULT_SPAWN_RADIUS))"
  by (simp add: CellManager_default_def)

text \<open>
  Claim C4, as the code has it. The cell limit starts at \<^verbatim>\<open>MAX_CELLS\<close>.
  \<^verbatim>\<open>setCellLimit(limit)\<close> overwrites it with the given value and changes nothing else: no
  buffer handle, not the rotation counter, no other member. \<^verbatim>\<open>rotateBuffers()\<close> leaves the
  limit as it is.
\<close>

theorem setCellLimit_overwrites:
  "getCellLimit (CellManager_default MAX_CELLS DEFAULT_SPAWN_RADIUS) = MAX_CELLS
   \<and> getCellLimit (setCellLimit limit m) = limit
   \<and> setCellLimit limit m = m\<lparr>cellLimit := limit\<rparr>
   \<and> cellBuffer (setCellLimit limit m) = cellBuffer m
   \<and> bufferRotation (setCellLimit limit m) = bufferRotation m
   \<and> map_sum id getCellLimit (rotateBuffers m) = Inr (getCellLimit m)"
  by (simp add: setCellLimit_def getCellLimit_def CellManager_default_def rotateBuffers_eq)

text \<open>
  A manager started with \<^verbatim>\<open>MAX_CELLS\<close> = 100 reports the limit 7 after
  \<^verbatim>\<open>setCellLimit(7)\<close>, with the same buffers as before.
\<close>

theorem setCellLimit_counterexample:
  "getCellLimit (CellManager_default 100 5) = 100
   \<and> getCellLimit (setCellLimit 7 (CellManager_default 100 5)) = 7
   \<and> getCellLimit (setCellLimit 7 (CellManager_default 100 5))
       \<noteq> getCellLimit (CellManager_default 100 5)
   \<and> setCellLimit 7 (CellManager_default 100 5) = CellManager_default 100 5\<lparr>cellLimit := 7\<rparr>
   \<and> cellBuffer (setCellLimit 7 (CellManager_default 100 5)) = cellBuffer (CellManager_default 100 5)"
  by (simp add: setCellLimit_def getCellLimit_def CellManager_default_def)

end
